theory Spec2Isabelle
  imports Main
begin

section \<open>JavaScript values\<close>

text \<open>
  The node of \<^verbatim>\<open>src/nodes/WebhookPathChoice.node.ts\<close> handles free-form JSON: the
  webhook body (\<^verbatim>\<open>IDataObject\<close>) and the configured actions
  (\<^verbatim>\<open>Array<Record<string, any>>\<close>). A value is one of JavaScript's primitives, an
  array or an object; an object is an association list of its own properties (a parsed
  JSON object has each key once; of a key listed twice the first entry counts).

  The node never computes with a number: it tests its truthiness, compares it with
  \<^verbatim>\<open>===\<close> and converts it to a string. A number is therefore represented by the
  string that JavaScript prints for it (\<^verbatim>\<open>Number.prototype.toString\<close>): \<^verbatim>\<open>17\<close>,
  \<^verbatim>\<open>1.5\<close>, \<^verbatim>\<open>-0.25\<close>, \<^verbatim>\<open>1e+21\<close>, \<^verbatim>\<open>18446744073709552000\<close>. Two numbers
  other than \<^verbatim>\<open>NaN\<close> are strictly equal exactly when they print the same (both zeros
  print \<^verbatim>\<open>0\<close>), and the falsy numbers are the ones that print \<^verbatim>\<open>0\<close> or \<^verbatim>\<open>NaN\<close>.
\<close>

datatype jsval =
    JUndefined
  | JNull
  | JBool bool
  | JNum string
  | JStr string
  | JArr "jsval list"
  | JObj "(string \<times> jsval) list"

type_synonym jsobject = "(string \<times> jsval) list"

text \<open>Property read \<^verbatim>\<open>o.key\<close>: a property the object does not have reads \<^verbatim>\<open>undefined\<close>.\<close>

definition get_prop :: "jsobject \<Rightarrow> string \<Rightarrow> jsval" where
  "get_prop obj key = (case map_of obj key of None \<Rightarrow> JUndefined | Some v \<Rightarrow> v)"

text \<open>
  Truthiness, as tested by \<^verbatim>\<open>!action\<close> and by \<^verbatim>\<open>action.name || ...\<close>: the falsy
  values are \<^verbatim>\<open>undefined\<close>, \<^verbatim>\<open>null\<close>, \<^verbatim>\<open>false\<close>, \<^verbatim>\<open>0\<close>, \<^verbatim>\<open>NaN\<close> and the empty
  string.
\<close>

fun truthy :: "jsval \<Rightarrow> bool" where
  "truthy JUndefined = False"
| "truthy JNull = False"
| "truthy (JBool b) = b"
| "truthy (JNum r) = (r \<noteq> ''0'' \<and> r \<noteq> ''NaN'')"
| "truthy (JStr s) = (s \<noteq> [])"
| "truthy (JArr xs) = True"
| "truthy (JObj kvs) = True"

text \<open>
  Strict equality \<^verbatim>\<open>a === b\<close> between a value read from the configuration and a value
  read from the webhook body: primitives compare by type and value, and \<^verbatim>\<open>NaN\<close> is
  equal to nothing; arrays and objects compare by reference, and the two sides never
  share a reference.
\<close>

fun strict_eq :: "jsval \<Rightarrow> jsval \<Rightarrow> bool" where
  "strict_eq (JArr xs) b = False"
| "strict_eq (JObj kvs) b = False"
| "strict_eq (JNum r) b = (b = JNum r \<and> r \<noteq> ''NaN'')"
| "strict_eq a b = (a = b)"

text \<open>Decimal rendering of an array index, as a template literal renders it.\<close>

definition digit :: "nat \<Rightarrow> char" where
  "digit d = ''0123456789'' ! d"

fun decimal :: "nat \<Rightarrow> string" where
  "decimal n = (if 10 \<le> n then decimal (n div 10) else []) @ [digit (n mod 10)]"

declare decimal.simps [simp del]

text \<open>
  String conversion of a value inside a template literal \<^verbatim>\<open>`${v}`\<close>, for values that
  come from JSON. A primitive converts to its printed form. An object converts through
  its \<^verbatim>\<open>toString\<close> property: a plain object without an own \<^verbatim>\<open>toString\<close> key inherits
  the method that prints \<^verbatim>\<open>[object Object]\<close>; an own \<^verbatim>\<open>toString\<close> key holds JSON
  data, which is not callable, and \<^verbatim>\<open>valueOf\<close> (own, not callable, or inherited,
  returning the object itself) yields no primitive either, so the conversion throws a
  \<^verbatim>\<open>TypeError\<close>. An array is joined with commas: \<^verbatim>\<open>null\<close> and \<^verbatim>\<open>undefined\<close> elements
  print as empty, every other element is converted in turn, and an element whose
  conversion throws makes the whole conversion throw.
\<close>

datatype error = NodeOperationError string | TypeError

fun js_to_string :: "jsval \<Rightarrow> error + string"
  and js_join :: "jsval list \<Rightarrow> error + string" where
  "js_to_string JUndefined = Inr ''undefined''"
| "js_to_string JNull = Inr ''null''"
| "js_to_string (JBool b) = Inr (if b then ''true'' else ''false'')"
| "js_to_string (JNum r) = Inr r"
| "js_to_string (JStr s) = Inr s"
| "js_to_string (JArr xs) = js_join xs"
| "js_to_string (JObj kvs) =
     (if ''toString'' \<in> set (map fst kvs) then Inl TypeError else Inr ''[object Object]'')"
| "js_join [] = Inr []"
| "js_join (x # xs) =
     (case (if x = JNull \<or> x = JUndefined then Inr [] else js_to_string x) of
        Inl e \<Rightarrow> Inl e
      | Inr s \<Rightarrow>
          if xs = [] then Inr s
          else (case js_join xs of Inl e \<Rightarrow> Inl e | Inr t \<Rightarrow> Inr (s @ '','' @ t)))"

section \<open>Output topology: \<^verbatim>\<open>configuredOutputs\<close>\<close>

datatype NodeConnectionType = Main | AiTool

record Lane =
  type :: NodeConnectionType
  displayName :: jsval

text \<open>
  \<^verbatim>\<open>INodeParameters\<close>, as far as the node reads it: \<^verbatim>\<open>parameters.actions\<close> may be
  absent, and so may the \<^verbatim>\<open>action\<close> list inside it.
\<close>

record FixedCollection =
  action :: "jsobject list option"

record INodeParameters =
  subject :: string
  message :: string
  actions :: "FixedCollection option"

text \<open>\<^verbatim>\<open>(parameters.actions as IDataObject)?.action ?? []\<close>\<close>

definition actionList :: "INodeParameters \<Rightarrow> jsobject list" where
  "actionList parameters =
     (case actions parameters of
        None \<Rightarrow> []
      | Some fc \<Rightarrow> (case action fc of None \<Rightarrow> [] | Some l \<Rightarrow> l))"

text \<open>The callback of \<^verbatim>\<open>actionList.map((action, index) => ...)\<close>.\<close>

definition lane_of :: "jsobject \<Rightarrow> nat \<Rightarrow> Lane" where
  "lane_of a index =
     \<lparr> type = Main,
       displayName = (if truthy (get_prop a ''name'') then get_prop a ''name''
                      else JStr (''Action '' @ decimal index)) \<rparr>"

text \<open>\<^verbatim>\<open>Array.prototype.map\<close> with the index passed to the callback.\<close>

fun map_index_from :: "nat \<Rightarrow> ('a \<Rightarrow> nat \<Rightarrow> 'b) \<Rightarrow> 'a list \<Rightarrow> 'b list" where
  "map_index_from i f [] = []"
| "map_index_from i f (x # xs) = f x i # map_index_from (Suc i) f xs"

definition map_index :: "('a \<Rightarrow> nat \<Rightarrow> 'b) \<Rightarrow> 'a list \<Rightarrow> 'b list" where
  "map_index f xs = map_index_from 0 f xs"

definition configuredOutputs :: "INodeParameters \<Rightarrow> Lane list" where
  "configuredOutputs parameters = map_index lane_of (actionList parameters)"

section \<open>\<^verbatim>\<open>configuredOutputs\<close> on a store\<close>

text \<open>
  \<^verbatim>\<open>configuredOutputs\<close> above is a function of its argument. To state what the function
  does to the objects it is given, the same lines 14 to 21 are modelled once more over
  an explicit store: every object and every array lives in a cell and is reached through
  a reference, a property read can throw, and an array or object literal allocates a
  cell. A value is a primitive, the enum constant of the connection type, or a reference.
\<close>

type_synonym addr = nat

datatype hval =
    HUndefined
  | HNull
  | HBool bool
  | HNum string
  | HStr string
  | HType NodeConnectionType
  | HRef addr

datatype cell = ObjectCell "(string \<times> hval) list" | ArrayCell "hval list"

type_synonym store = "cell list"

text \<open>The test of \<^verbatim>\<open>?.\<close> and \<^verbatim>\<open>??\<close>, and the test of \<^verbatim>\<open>||\<close>.\<close>

definition nullish :: "hval \<Rightarrow> bool" where
  "nullish v = (v = HUndefined \<or> v = HNull)"

fun truthy_h :: "hval \<Rightarrow> bool" where
  "truthy_h HUndefined = False"
| "truthy_h HNull = False"
| "truthy_h (HBool b) = b"
| "truthy_h (HNum r) = (r \<noteq> ''0'' \<and> r \<noteq> ''NaN'')"
| "truthy_h (HStr s) = (s \<noteq> [])"
| "truthy_h (HType t) = True"
| "truthy_h (HRef a) = True"

text \<open>
  The property read \<^verbatim>\<open>v.key\<close> for the keys the function reads, \<^verbatim>\<open>actions\<close>,
  \<^verbatim>\<open>action\<close> and \<^verbatim>\<open>name\<close>: reading from \<^verbatim>\<open>undefined\<close> or \<^verbatim>\<open>null\<close> throws a
  \<^verbatim>\<open>TypeError\<close>; an object gives its own property or \<^verbatim>\<open>undefined\<close>; an array and a
  primitive have none of these keys. A reference always points into the store; the model
  lets the read of any other reference fail.
\<close>

fun read_prop :: "store \<Rightarrow> hval \<Rightarrow> string \<Rightarrow> error + hval" where
  "read_prop h HUndefined key = Inl TypeError"
| "read_prop h HNull key = Inl TypeError"
| "read_prop h (HRef a) key =
     (if a < length h then
        (case h ! a of
           ObjectCell kvs \<Rightarrow> Inr (case map_of kvs key of None \<Rightarrow> HUndefined | Some v \<Rightarrow> v)
         | ArrayCell xs \<Rightarrow> Inr HUndefined)
      else Inl TypeError)"
| "read_prop h v key = Inr HUndefined"

text \<open>A literal allocates the next free cell; the store only grows.\<close>

definition alloc :: "store \<Rightarrow> cell \<Rightarrow> store \<times> addr" where
  "alloc h c = (h @ [c], length h)"

text \<open>
  \<^verbatim>\<open>actionList.map\<close> is callable only when \<^verbatim>\<open>actionList\<close> is an array; on any other
  value (data never holds a function) the call throws a \<^verbatim>\<open>TypeError\<close>.
\<close>

definition array_elems :: "store \<Rightarrow> hval \<Rightarrow> hval list option" where
  "array_elems h v =
     (case v of
        HRef a \<Rightarrow>
          (if a < length h then (case h ! a of ArrayCell xs \<Rightarrow> Some xs | ObjectCell kvs \<Rightarrow> None)
           else None)
      | _ \<Rightarrow> None)"

text \<open>\<^verbatim>\<open>map\<close> stores each result into the array it created: the one write to a cell.\<close>

definition push :: "store \<Rightarrow> addr \<Rightarrow> hval \<Rightarrow> store" where
  "push h r v = h[r := (case h ! r of ArrayCell xs \<Rightarrow> ArrayCell (xs @ [v]) | ObjectCell kvs \<Rightarrow> ObjectCell kvs)]"

text \<open>The callback: the object literal with \<^verbatim>\<open>type\<close> and \<^verbatim>\<open>displayName\<close>.\<close>

definition lane_cell :: "hval \<Rightarrow> nat \<Rightarrow> cell" where
  "lane_cell n index =
     ObjectCell [(''type'', HType Main),
                 (''displayName'', if truthy_h n then n else HStr (''Action '' @ decimal index))]"

definition lane_callback :: "store \<Rightarrow> hval \<Rightarrow> nat \<Rightarrow> store \<times> (error + hval)" where
  "lane_callback h act index =
     (case read_prop h act ''name'' of
        Inl e \<Rightarrow> (h, Inl e)
      | Inr n \<Rightarrow> (let (h', a) = alloc h (lane_cell n index) in (h', Inr (HRef a))))"

fun map_lanes :: "store \<Rightarrow> addr \<Rightarrow> nat \<Rightarrow> hval list \<Rightarrow> store \<times> (error + unit)" where
  "map_lanes h r index [] = (h, Inr ())"
| "map_lanes h r index (x # xs) =
     (case lane_callback h x index of
        (h', Inl e) \<Rightarrow> (h', Inl e)
      | (h', Inr lane) \<Rightarrow> map_lanes (push h' r lane) r (Suc index) xs)"

text \<open>
  The function, from the store it starts in and the value of \<^verbatim>\<open>parameters\<close> to the
  store it leaves and either the error thrown or the reference to the array returned.
\<close>

definition configuredOutputs_store :: "store \<Rightarrow> hval \<Rightarrow> store \<times> (error + hval)" where
  "configuredOutputs_store h parameters =
     (case read_prop h parameters ''actions'' of
        Inl e \<Rightarrow> (h, Inl e)
      | Inr x \<Rightarrow>
          (case (if nullish x then Inr HUndefined else read_prop h x ''action'') of
             Inl e \<Rightarrow> (h, Inl e)
           | Inr y \<Rightarrow>
               let (h1, actionList) = (if nullish y then (let (h', a) = alloc h (ArrayCell []) in (h', HRef a))
                                        else (h, y))
               in (case array_elems h1 actionList of
                     None \<Rightarrow> (h1, Inl TypeError)
                   | Some xs \<Rightarrow>
                       let (h2, r) = alloc h1 (ArrayCell [])
                       in (case map_lanes h2 r 0 xs of
                             (h3, Inl e) \<Rightarrow> (h3, Inl e)
                           | (h3, Inr u) \<Rightarrow> (h3, Inr (HRef r))))))"

text \<open>
  A store is closed when every reference held in a cell points to a cell of the store,
  as it is for every store of a running program.
\<close>

definition below :: "nat \<Rightarrow> hval \<Rightarrow> bool" where
  "below n v = (case v of HRef a \<Rightarrow> a < n | _ \<Rightarrow> True)"

definition closed_cell :: "nat \<Rightarrow> cell \<Rightarrow> bool" where
  "closed_cell n c =
     (case c of ObjectCell kvs \<Rightarrow> list_all (\<lambda>kv. below n (snd kv)) kvs
              | ArrayCell xs \<Rightarrow> list_all (below n) xs)"

definition closed_store :: "store \<Rightarrow> bool" where
  "closed_store h = list_all (closed_cell (length h)) h"

text \<open>
  What a caller sees of a result: the error, or the lanes in order, each read through
  its reference (\<open>None\<close> when the value returned is not an array of references to
  cells).
\<close>

definition cell_of :: "store \<Rightarrow> hval \<Rightarrow> cell option" where
  "cell_of h v = (case v of HRef a \<Rightarrow> (if a < length h then Some (h ! a) else None) | _ \<Rightarrow> None)"

definition lanes_of :: "store \<Rightarrow> error + hval \<Rightarrow> error + cell list option" where
  "lanes_of h res =
     (case res of
        Inl e \<Rightarrow> Inl e
      | Inr v \<Rightarrow>
          Inr (case array_elems h v of None \<Rightarrow> None | Some ls \<Rightarrow> those (map (cell_of h) ls)))"

text \<open>
  The lanes that the configuration held in a store determines, computed by reading only;
  the proofs compare both invocations with them.
\<close>

fun lane_cells :: "store \<Rightarrow> nat \<Rightarrow> hval list \<Rightarrow> error + cell list" where
  "lane_cells h index [] = Inr []"
| "lane_cells h index (x # xs) =
     (case read_prop h x ''name'' of
        Inl e \<Rightarrow> Inl e
      | Inr n \<Rightarrow>
          (case lane_cells h (Suc index) xs of
             Inl e \<Rightarrow> Inl e
           | Inr cs \<Rightarrow> Inr (lane_cell n index # cs)))"

definition expected_lanes :: "store \<Rightarrow> hval \<Rightarrow> error + cell list" where
  "expected_lanes h parameters =
     (case read_prop h parameters ''actions'' of
        Inl e \<Rightarrow> Inl e
      | Inr x \<Rightarrow>
          (case (if nullish x then Inr HUndefined else read_prop h x ''action'') of
             Inl e \<Rightarrow> Inl e
           | Inr y \<Rightarrow>
               if nullish y then Inr []
               else (case array_elems h y of
                       None \<Rightarrow> Inl TypeError
                     | Some xs \<Rightarrow> lane_cells h 0 xs)))"

section \<open>Run start: \<^verbatim>\<open>execute\<close>\<close>

record RequestBody =
  rb_subject :: string
  rb_message :: string
  webhook_url :: string
  rb_actions :: "jsobject list"
  account_uuid :: string

text \<open>
  What \<^verbatim>\<open>execute\<close> reads from the host: the three node parameters (the action list is
  \<^verbatim>\<open>getNodeParameter('actions.action', 0, [])\<close>, already resolved), the run's resume
  address, the node's identifier and the input items.
\<close>

record 'i IExecuteFunctions =
  param_subject :: string
  param_message :: string
  param_actions_action :: "jsobject list"
  resumeUrl :: string
  node_id :: string
  inputData :: "'i list"

definition requestBody :: "'i IExecuteFunctions \<Rightarrow> RequestBody" where
  "requestBody this =
     \<lparr> rb_subject = param_subject this,
       rb_message = param_message this,
       webhook_url = resumeUrl this @ ''/'' @ node_id this,
       rb_actions = map (\<lambda>a. [(''name'', get_prop a ''name'')]) (param_actions_action this),
       account_uuid = ''00000000-0000-4000-c025-000000000000'' \<rparr>"

datatype WaitTill = WAIT_INDEFINITELY

text \<open>
  The effects of \<^verbatim>\<open>execute\<close>: the request body it builds (and logs), the waiting
  time it hands to \<^verbatim>\<open>putExecutionToWait\<close>, and the returned data, which is the
  input passed through on a single output.
\<close>

record 'i ExecuteOutcome =
  request :: RequestBody
  waitTill :: WaitTill
  returned :: "'i list list"

definition execute :: "'i IExecuteFunctions \<Rightarrow> 'i ExecuteOutcome" where
  "execute this =
     \<lparr> request = requestBody this,
       waitTill = WAIT_INDEFINITELY,
       returned = [inputData this] \<rparr>"

section \<open>Resume: \<^verbatim>\<open>webhook\<close>\<close>

record PairedItem =
  item :: nat

record INodeExecutionData =
  json :: jsobject
  pairedItem :: "PairedItem option"

record IWebhookResponseData =
  webhookResponse :: string
  workflowData :: "INodeExecutionData list list"

text \<open>
  Modelled from the spec: \<^verbatim>\<open>this.helpers.returnJsonArray\<close> belongs to the host engine
  and is not part of the repository. The spec (section 4.2, step 4) has the matched slot
  hold "a singleton record set containing CallbackPayload": the helper wraps the body in
  one item that carries no provenance yet.
\<close>

definition returnJsonArray :: "jsobject \<Rightarrow> INodeExecutionData list" where
  "returnJsonArray body = [\<lparr> json = body, pairedItem = None \<rparr>]"

text \<open>\<^verbatim>\<open>Array.prototype.findIndex\<close>: the first index whose element satisfies the test, or -1.\<close>

fun findIndex_from :: "nat \<Rightarrow> ('a \<Rightarrow> bool) \<Rightarrow> 'a list \<Rightarrow> int" where
  "findIndex_from i p [] = - 1"
| "findIndex_from i p (x # xs) = (if p x then int i else findIndex_from (Suc i) p xs)"

definition findIndex :: "('a \<Rightarrow> bool) \<Rightarrow> 'a list \<Rightarrow> int" where
  "findIndex p xs = findIndex_from 0 p xs"

text \<open>
  The two errors the spec names are both thrown as \<^verbatim>\<open>NodeOperationError\<close> and differ
  in their message. The message of the second one ends with the action's value, already
  converted to a string.
\<close>

definition MissingActionError :: error where
  \<open>MissingActionError = NodeOperationError ''No "action" received.''\<close>

definition UnknownActionError :: "string \<Rightarrow> error" where
  "UnknownActionError s = NodeOperationError (''Unknown action: '' @ s)"

text \<open>
  \<^verbatim>\<open>returnArray[index][0].pairedItem = { item: 0 }\<close>: writing a property of element 0
  of an empty array is a \<^verbatim>\<open>TypeError\<close>.
\<close>

definition set_pairedItem0 :: "INodeExecutionData list \<Rightarrow> error + INodeExecutionData list" where
  "set_pairedItem0 slot =
     (case slot of
        [] \<Rightarrow> Inl TypeError
      | d # ds \<Rightarrow> Inr (d\<lparr>pairedItem := Some \<lparr> item = 0 \<rparr>\<rparr> # ds))"

text \<open>
  \<^verbatim>\<open>webhook\<close>, with the host's answers as arguments: \<^verbatim>\<open>allActions\<close> is
  \<^verbatim>\<open>getNodeParameter('actions.action', [])\<close> and \<^verbatim>\<open>body\<close> is \<^verbatim>\<open>getBodyData()\<close>.
  The index that \<^verbatim>\<open>findIndex\<close> returns is below the length of \<^verbatim>\<open>returnArray\<close>
  whenever it is not negative, so the assignment updates an existing slot. The template
  literal of the unknown-action message is evaluated before the error is built, so a
  string conversion that throws replaces the error. The two log lines serialise values
  that came from JSON and do not change the outcome.
\<close>

definition webhook :: "jsobject list \<Rightarrow> jsobject \<Rightarrow> error + IWebhookResponseData" where
  "webhook allActions body =
     (let action = get_prop body ''action'' in
      if \<not> truthy action then Inl MissingActionError
      else
        let index = findIndex (\<lambda>a. strict_eq (get_prop a ''name'') action) allActions in
        if index < 0 then
          (case js_to_string action of
             Inl e \<Rightarrow> Inl e
           | Inr s \<Rightarrow> Inl (UnknownActionError s))
        else
          let returnArray = map (\<lambda>_. []) allActions in
          (case set_pairedItem0 (returnJsonArray body) of
             Inl e \<Rightarrow> Inl e
           | Inr slot \<Rightarrow>
               Inr \<lparr> webhookResponse = ''OK'',
                     workflowData = returnArray[nat index := slot] \<rparr>))"

section \<open>Example data\<close>

text \<open>The default configuration of the node, and callbacks of the kinds the node receives.\<close>

abbreviation approve_decline :: "jsobject list" where
  "approve_decline \<equiv>
     [[(''name'', JStr ''Approve''), (''action_is_destructive'', JBool False),
       (''gather_custom_feedback_response'', JBool False)],
      [(''name'', JStr ''Decline''), (''action_is_destructive'', JBool True),
       (''gather_custom_feedback_response'', JBool True)]]"

abbreviation decline_body :: jsobject where
  "decline_body \<equiv> [(''action'', JStr ''Decline''), (''note'', JStr ''too risky'')]"

abbreviation decline_item :: INodeExecutionData where
  "decline_item \<equiv> \<lparr> json = decline_body, pairedItem = Some \<lparr> item = 0 \<rparr> \<rparr>"

abbreviation a_a :: "jsobject list" where
  "a_a \<equiv> [[(''name'', JStr ''A'')], [(''name'', JStr ''A'')]]"

abbreviation a_body :: jsobject where
  "a_body \<equiv> [(''action'', JStr ''A'')]"

abbreviation unnamed_b :: "jsobject list" where
  "unnamed_b \<equiv> [[(''name'', JStr [])], [(''name'', JStr ''B'')]]"

abbreviation b_body :: jsobject where
  "b_body \<equiv> [(''action'', JStr ''B'')]"

abbreviation example_parameters :: INodeParameters where
  "example_parameters \<equiv>
     \<lparr> subject = ''Deploy v2'', message = ''Please decide'',
       actions = Some \<lparr> action = Some [[(''name'', JStr ''Approve'')], [(''name'', JStr [])]] \<rparr> \<rparr>"

abbreviation example_run :: "INodeExecutionData IExecuteFunctions" where
  "example_run \<equiv>
     \<lparr> param_subject = ''Deploy v2'', param_message = ''Please decide'',
       param_actions_action = approve_decline,
       resumeUrl = ''http://localhost:5678/webhook-waiting/42'',
       node_id = ''7f3c'',
       inputData = [\<lparr> json = [(''build'', JNum ''17'')], pairedItem = None \<rparr>] \<rparr>"

text \<open>
  A store holding the parameters object, its \<^verbatim>\<open>actions\<close> collection, the array of
  actions and two actions, the second one unnamed; and the two lanes they give.
\<close>

abbreviation example_store :: store where
  "example_store \<equiv>
     [ObjectCell [(''subject'', HStr ''Deploy v2''), (''actions'', HRef 1)],
      ObjectCell [(''action'', HRef 2)],
      ArrayCell [HRef 3, HRef 4],
      ObjectCell [(''name'', HStr ''Approve'')],
      ObjectCell [(''name'', HStr [])]]"

abbreviation approve_lane :: cell where
  "approve_lane \<equiv> ObjectCell [(''type'', HType Main), (''displayName'', HStr ''Approve'')]"

abbreviation action1_lane :: cell where
  "action1_lane \<equiv> ObjectCell [(''type'', HType Main), (''displayName'', HStr ''Action 1'')]"

section \<open>Auxiliary facts\<close>

subsection \<open>Mapping with an index\<close>

lemma length_map_index_from: "length (map_index_from i f xs) = length xs"
  by (induction xs arbitrary: i) simp_all

lemma nth_map_index_from:
  "k < length xs \<Longrightarrow> map_index_from i f xs ! k = f (xs ! k) (i + k)"
proof (induction xs arbitrary: i k)
  case Nil
  then show ?case by simp
next
  case (Cons x xs)
  then show ?case by (cases k) simp_all
qed

lemma map_const_replicate: "map (\<lambda>_. c) xs = replicate (length xs) c"
  by (induction xs) simp_all

subsection \<open>Searching for the first match\<close>

lemma findIndex_from_none:
  "\<forall>x\<in>set xs. \<not> p x \<Longrightarrow> findIndex_from i p xs = - 1"
  by (induction xs arbitrary: i) simp_all

lemma findIndex_from_first:
  "k < length xs \<Longrightarrow> p (xs ! k) \<Longrightarrow> \<forall>j<k. \<not> p (xs ! j) \<Longrightarrow>
     findIndex_from i p xs = int (i + k)"
proof (induction xs arbitrary: i k)
  case Nil
  then show ?case by simp
next
  case (Cons x xs)
  show ?case
  proof (cases k)
    case 0
    with Cons.prems show ?thesis by simp
  next
    case (Suc m)
    from Cons.prems Suc have nx: "\<not> p x" by auto
    from Cons.prems Suc have m: "m < length xs" "p (xs ! m)" by simp_all
    from Cons.prems Suc have "\<forall>j<m. \<not> p (xs ! j)" by auto
    with m have "findIndex_from (Suc i) p xs = int (Suc i + m)" by (rule Cons.IH)
    with nx Suc show ?thesis by simp
  qed
qed

lemma findIndex_from_some:
  "\<exists>x\<in>set xs. p x \<Longrightarrow>
     \<exists>k<length xs. findIndex_from i p xs = int (i + k) \<and> p (xs ! k) \<and> (\<forall>j<k. \<not> p (xs ! j))"
proof (induction xs arbitrary: i)
  case Nil
  then show ?case by simp
next
  case (Cons x xs)
  show ?case
  proof (cases "p x")
    case True
    then have "findIndex_from i p (x # xs) = int (i + 0) \<and> p ((x # xs) ! 0)
        \<and> (\<forall>j<0. \<not> p ((x # xs) ! j))" by simp
    then show ?thesis by blast
  next
    case False
    with Cons.prems have "\<exists>y\<in>set xs. p y" by auto
    then obtain k where k: "k < length xs" "findIndex_from (Suc i) p xs = int (Suc i + k)"
      "p (xs ! k)" "\<forall>j<k. \<not> p (xs ! j)"
      using Cons.IH by blast
    have "\<forall>j<Suc k. \<not> p ((x # xs) ! j)"
    proof (intro allI impI)
      fix j assume "j < Suc k"
      with False k(4) show "\<not> p ((x # xs) ! j)" by (cases j) simp_all
    qed
    with False k have "Suc k < length (x # xs) \<and> findIndex_from i p (x # xs) = int (i + Suc k)
        \<and> p ((x # xs) ! Suc k) \<and> (\<forall>j<Suc k. \<not> p ((x # xs) ! j))" by simp
    then show ?thesis by blast
  qed
qed

lemma findIndex_from_neg_iff:
  "findIndex_from i p xs < 0 \<longleftrightarrow> (\<forall>x\<in>set xs. \<not> p x)"
proof
  assume neg: "findIndex_from i p xs < 0"
  show "\<forall>x\<in>set xs. \<not> p x"
  proof (rule ccontr)
    assume "\<not> (\<forall>x\<in>set xs. \<not> p x)"
    then have "\<exists>x\<in>set xs. p x" by simp
    from findIndex_from_some [OF this, of i] neg show False by auto
  qed
next
  assume "\<forall>x\<in>set xs. \<not> p x"
  then show "findIndex_from i p xs < 0" by (simp add: findIndex_from_none)
qed

lemma findIndex_first:
  "k < length xs \<Longrightarrow> p (xs ! k) \<Longrightarrow> \<forall>j<k. \<not> p (xs ! j) \<Longrightarrow> findIndex p xs = int k"
  using findIndex_from_first [of k xs p 0] by (simp add: findIndex_def)

lemma findIndex_some:
  "\<exists>x\<in>set xs. p x \<Longrightarrow>
     \<exists>k<length xs. findIndex p xs = int k \<and> p (xs ! k) \<and> (\<forall>j<k. \<not> p (xs ! j))"
  using findIndex_from_some [of xs p 0] by (simp add: findIndex_def)

lemma findIndex_neg_iff: "findIndex p xs < 0 \<longleftrightarrow> (\<forall>x\<in>set xs. \<not> p x)"
  by (simp add: findIndex_def findIndex_from_neg_iff)

subsection \<open>Errors and the paths of \<^verbatim>\<open>webhook\<close>\<close>

lemma decimal_digit: "n < 10 \<Longrightarrow> decimal n = [digit n]"
  by (simp add: decimal.simps)

lemma missing_neq_unknown: "MissingActionError \<noteq> UnknownActionError s"
  by (simp add: MissingActionError_def UnknownActionError_def)

lemma webhook_falsy:
  "\<not> truthy (get_prop body ''action'') \<Longrightarrow> webhook allActions body = Inl MissingActionError"
  by (simp add: webhook_def)

lemma webhook_at_index:
  assumes "truthy (get_prop body ''action'')"
    and "findIndex (\<lambda>a. strict_eq (get_prop a ''name'') (get_prop body ''action'')) allActions = int k"
  shows "webhook allActions body =
           Inr \<lparr> webhookResponse = ''OK'',
                 workflowData = (replicate (length allActions) [])
                    [k := [\<lparr> json = body, pairedItem = Some \<lparr> item = 0 \<rparr> \<rparr>]] \<rparr>"
  using assms
  by (simp add: webhook_def Let_def set_pairedItem0_def returnJsonArray_def map_const_replicate)

lemma webhook_Inr_index:
  assumes "webhook allActions body = Inr r"
  shows "truthy (get_prop body ''action'') \<and>
         0 \<le> findIndex (\<lambda>a. strict_eq (get_prop a ''name'') (get_prop body ''action'')) allActions"
  using assms by (auto simp: webhook_def Let_def split: if_splits sum.splits)

subsection \<open>The lanes of \<^verbatim>\<open>configuredOutputs\<close>\<close>

lemma length_configuredOutputs: "length (configuredOutputs p) = length (actionList p)"
  by (simp add: configuredOutputs_def map_index_def length_map_index_from)

lemma nth_configuredOutputs:
  "i < length (actionList p) \<Longrightarrow> configuredOutputs p ! i = lane_of (actionList p ! i) i"
  by (simp add: configuredOutputs_def map_index_def nth_map_index_from)

subsection \<open>Reading and growing a store\<close>

lemma read_prop_prefix:
  assumes "take n h' = take n h" "n \<le> length h" "n \<le> length h'" "below n v"
  shows "read_prop h' v key = read_prop h v key"
proof (cases v)
  case (HRef a)
  with assms(4) have a: "a < n" by (simp add: below_def)
  with assms(1) have "h' ! a = h ! a"
    by (metis nth_take)
  with a assms(2,3) HRef show ?thesis by simp
qed simp_all

lemma array_elems_prefix:
  assumes "take n h' = take n h" "n \<le> length h" "n \<le> length h'" "below n v"
  shows "array_elems h' v = array_elems h v"
proof (cases v)
  case (HRef a)
  with assms(4) have a: "a < n" by (simp add: below_def)
  with assms(1) have "h' ! a = h ! a"
    by (metis nth_take)
  with a assms(2,3) HRef show ?thesis by (simp add: array_elems_def)
qed (simp_all add: array_elems_def)

lemma lane_cells_prefix:
  assumes "take n h' = take n h" "n \<le> length h" "n \<le> length h'" "\<forall>x\<in>set xs. below n x"
  shows "lane_cells h' i xs = lane_cells h i xs"
  using assms(4)
proof (induction xs arbitrary: i)
  case Nil
  then show ?case by simp
next
  case (Cons x xs)
  then have "below n x" by simp
  with assms(1-3) have "read_prop h' x ''name'' = read_prop h x ''name''"
    by (rule read_prop_prefix)
  moreover from Cons have "lane_cells h' (Suc i) xs = lane_cells h (Suc i) xs" by simp
  ultimately show ?case by (simp split: sum.splits)
qed

text \<open>Values read out of a closed store point into it.\<close>

lemma closed_store_nth:
  "closed_store h \<Longrightarrow> a < length h \<Longrightarrow> closed_cell (length h) (h ! a)"
  by (simp add: closed_store_def list_all_length)

lemma read_prop_below:
  assumes "closed_store h" "read_prop h v key = Inr w"
  shows "below (length h) w"
proof (cases v)
  case (HRef a)
  show ?thesis
  proof (cases "a < length h")
    case True
    with assms(1) have c: "closed_cell (length h) (h ! a)" by (rule closed_store_nth)
    show ?thesis
    proof (cases "h ! a")
      case (ObjectCell kvs)
      show ?thesis
      proof (cases "map_of kvs key")
        case None
        with assms(2) HRef True ObjectCell show ?thesis by (simp add: below_def)
      next
        case (Some u)
        then have "(key, u) \<in> set kvs" by (rule map_of_SomeD)
        with c ObjectCell have "below (length h) u"
          by (auto simp: closed_cell_def list_all_iff)
        with assms(2) HRef True ObjectCell Some show ?thesis by simp
      qed
    next
      case (ArrayCell xs)
      with assms(2) HRef True show ?thesis by (auto simp: below_def)
    qed
  next
    case False
    with assms(2) HRef show ?thesis by simp
  qed
qed (use assms(2) in \<open>auto simp: below_def\<close>)

lemma array_elems_below:
  assumes "closed_store h" "array_elems h v = Some xs"
  shows "\<forall>x\<in>set xs. below (length h) x"
proof (cases v)
  case (HRef a)
  with assms(2) have a: "a < length h" and c: "h ! a = ArrayCell xs"
    by (auto simp: array_elems_def split: if_splits cell.splits)
  from assms(1) a have "closed_cell (length h) (h ! a)" by (rule closed_store_nth)
  with c show ?thesis by (simp add: closed_cell_def list_all_iff)
qed (use assms(2) in \<open>auto simp: array_elems_def\<close>)

lemma below_mono: "below n v \<Longrightarrow> n \<le> m \<Longrightarrow> below m v"
  by (cases v) (simp_all add: below_def)

lemma lane_callback_Inr:
  "read_prop h x ''name'' = Inr n \<Longrightarrow>
     lane_callback h x i = (h @ [lane_cell n i], Inr (HRef (length h)))"
  by (simp add: lane_callback_def alloc_def)

lemma lane_callback_Inl:
  "read_prop h x ''name'' = Inl e \<Longrightarrow> lane_callback h x i = (h, Inl e)"
  by (simp add: lane_callback_def)

lemma push_fresh:
  "r < length h \<Longrightarrow> h ! r = ArrayCell acc \<Longrightarrow>
     push (h @ [c]) r v = h[r := ArrayCell (acc @ [v])] @ [c]"
  by (simp add: push_def nth_append list_update_append1)

lemma map_lanes_spec:
  assumes "r < length h" "h ! r = ArrayCell acc" "\<forall>x\<in>set xs. below r x"
  shows "take r (fst (map_lanes h r i xs)) = take r h
         \<and> length h \<le> length (fst (map_lanes h r i xs))
         \<and> (case lane_cells h i xs of
               Inl e \<Rightarrow> snd (map_lanes h r i xs) = Inl e
             | Inr cs \<Rightarrow>
                 map_lanes h r i xs =
                   (h[r := ArrayCell (acc @ map HRef [length h..<length h + length cs])] @ cs,
                    Inr ()))"
  using assms
proof (induction xs arbitrary: h i acc)
  case Nil
  then have "h[r := ArrayCell acc] = h" by (metis list_update_id)
  then show ?case by simp
next
  case (Cons x xs)
  show ?case
  proof (cases "read_prop h x ''name''")
    case (Inl e)
    then show ?thesis by (simp add: lane_callback_Inl)
  next
    case (Inr n)
    let ?c = "lane_cell n i"
    let ?acc = "acc @ [HRef (length h)]"
    let ?h = "h[r := ArrayCell ?acc] @ [?c]"
    from Cons.prems(1,2) have p: "push (h @ [?c]) r (HRef (length h)) = ?h"
      by (rule push_fresh)
    from Inr p have step: "map_lanes h r i (x # xs) = map_lanes ?h r (Suc i) xs"
      by (simp add: lane_callback_Inr)
    from Cons.prems(1) have r': "r < length ?h" by simp
    from Cons.prems(1) have at: "?h ! r = ArrayCell ?acc" by (simp add: nth_append)
    from Cons.prems(3) have xs: "\<forall>x\<in>set xs. below r x" by simp
    note IH = Cons.IH [OF r' at xs, of "Suc i"]
    from Cons.prems(1) have tk: "take r ?h = take r h" by simp
    from Cons.prems(1) have "lane_cells ?h (Suc i) xs = lane_cells h (Suc i) xs"
      using tk xs by (intro lane_cells_prefix [where n = r]) simp_all
    note same = this
    from IH tk step have frame: "take r (fst (map_lanes h r i (x # xs))) = take r h"
      by simp
    from IH step have len: "length h \<le> length (fst (map_lanes h r i (x # xs)))"
      by simp
    show ?thesis
    proof (cases "lane_cells h (Suc i) xs")
      case (Inl e)
      with IH same step Inr frame len show ?thesis by simp
    next
      case cs: (Inr cs)
      with IH same have "map_lanes ?h r (Suc i) xs =
          (?h[r := ArrayCell (?acc @ map HRef [length ?h..<length ?h + length cs])] @ cs, Inr ())"
        by simp
      moreover from Cons.prems(1)
      have "?h[r := ArrayCell (?acc @ map HRef [length ?h..<length ?h + length cs])]
          = h[r := ArrayCell (?acc @ map HRef [length ?h..<length ?h + length cs])] @ [?c]"
        by (simp add: list_update_append1)
      moreover have "?acc @ map HRef [length ?h..<length ?h + length cs]
          = acc @ map HRef [length h..<length h + length (?c # cs)]"
      proof -
        have "[length h..<Suc (length h + length cs)]
            = length h # [Suc (length h)..<Suc (length h + length cs)]"
          by (rule upt_conv_Cons) simp
        then show ?thesis by simp
      qed
      ultimately have "map_lanes h r i (x # xs) =
          (h[r := ArrayCell (acc @ map HRef [length h..<length h + length (?c # cs)])] @ (?c # cs),
           Inr ())"
        using step by simp
      with Inr cs frame len show ?thesis by simp
    qed
  qed
qed

lemma those_map_Some: "those (map Some cs) = Some cs"
  by (induction cs) simp_all

lemma cells_of_fresh:
  "map (cell_of (pre @ cs)) (map HRef [length pre..<length pre + length cs]) = map Some cs"
proof (rule nth_equalityI)
  show "length (map (cell_of (pre @ cs)) (map HRef [length pre..<length pre + length cs]))
      = length (map Some cs)" by simp
next
  fix j assume "j < length (map (cell_of (pre @ cs)) (map HRef [length pre..<length pre + length cs]))"
  then have j: "j < length cs" by simp
  then show "map (cell_of (pre @ cs)) (map HRef [length pre..<length pre + length cs]) ! j
      = map Some cs ! j"
    by (simp add: cell_of_def nth_append)
qed

text \<open>
  One invocation, started in any store that still holds the cells of a closed store
  \<open>h0\<close> unchanged: the lanes it returns are the ones \<open>h0\<close> determines, and no cell of the
  store it started in is changed.
\<close>

lemma configuredOutputs_store_spec:
  assumes cl: "closed_store h0" and p: "below (length h0) parameters"
    and pre: "take (length h0) h = h0"
  shows "lanes_of (fst (configuredOutputs_store h parameters))
                  (snd (configuredOutputs_store h parameters))
           = map_sum id Some (expected_lanes h0 parameters)
         \<and> take (length h) (fst (configuredOutputs_store h parameters)) = h"
proof -
  let ?n = "length h0"
  from pre have le: "?n \<le> length h"
    by (metis length_take min.cobounded1)
  from pre have tk: "take ?n h = take ?n h0" by simp
  have rd: "\<And>v key. below ?n v \<Longrightarrow> read_prop h v key = read_prop h0 v key"
    using tk le by (intro read_prop_prefix [where n = ?n]) simp_all
  have ae: "\<And>v. below ?n v \<Longrightarrow> array_elems h v = array_elems h0 v"
    using tk le by (intro array_elems_prefix [where n = ?n]) simp_all
  show ?thesis
  proof (cases "read_prop h0 parameters ''actions''")
    case (Inl e)
    with rd [OF p] show ?thesis
      by (simp add: configuredOutputs_store_def expected_lanes_def lanes_of_def)
  next
    case x: (Inr x)
    from cl x have bx: "below ?n x" by (rule read_prop_below)
    let ?ry = "if nullish x then Inr HUndefined else read_prop h0 x ''action''"
    have ry: "(if nullish x then Inr HUndefined else read_prop h x ''action'') = ?ry"
      using rd [OF bx] by simp
    show ?thesis
    proof (cases ?ry)
      case (Inl e)
      with rd [OF p] x ry show ?thesis
        by (simp add: configuredOutputs_store_def expected_lanes_def lanes_of_def)
    next
      case y: (Inr y)
      have by': "below ?n y"
      proof (cases "nullish x")
        case True
        with y show ?thesis by (auto simp: below_def)
      next
        case False
        with y have "read_prop h0 x ''action'' = Inr y" by simp
        with cl show ?thesis by (rule read_prop_below)
      qed
      show ?thesis
      proof (cases "nullish y")
        case True
        have "array_elems (h @ [ArrayCell []]) (HRef (length h)) = Some []"
          by (simp add: array_elems_def)
        with True rd [OF p] x ry y show ?thesis
          by (simp add: configuredOutputs_store_def expected_lanes_def lanes_of_def alloc_def
              array_elems_def nth_append)
      next
        case ny: False
        show ?thesis
        proof (cases "array_elems h0 y")
          case None
          with ny rd [OF p] x ry y ae [OF by'] show ?thesis
            by (simp add: configuredOutputs_store_def expected_lanes_def lanes_of_def)
        next
          case (Some xs)
          let ?r = "length h"
          let ?h2 = "h @ [ArrayCell []]"
          from cl Some have "\<forall>x\<in>set xs. below ?n x" by (rule array_elems_below)
          with le have xs: "\<forall>x\<in>set xs. below ?r x" by (blast intro: below_mono)
          have r: "?r < length ?h2" by simp
          have at: "?h2 ! ?r = ArrayCell []" by simp
          note ml = map_lanes_spec [OF r at xs, of 0]
          have lc: "lane_cells ?h2 0 xs = lane_cells h0 0 xs"
            using tk le \<open>\<forall>x\<in>set xs. below ?n x\<close>
            by (intro lane_cells_prefix [where n = ?n]) simp_all
          have run: "configuredOutputs_store h parameters =
              (case map_lanes ?h2 ?r 0 xs of
                 (h3, Inl e) \<Rightarrow> (h3, Inl e)
               | (h3, Inr u) \<Rightarrow> (h3, Inr (HRef ?r)))"
            using ny rd [OF p] x ry y ae [OF by'] Some
            by (simp add: configuredOutputs_store_def alloc_def)
          have ex: "expected_lanes h0 parameters = lane_cells h0 0 xs"
            using ny x y Some by (simp add: expected_lanes_def)
          obtain h3 u where m: "map_lanes ?h2 ?r 0 xs = (h3, u)"
            by (cases "map_lanes ?h2 ?r 0 xs")
          have run': "configuredOutputs_store h parameters =
              (h3, case u of Inl e \<Rightarrow> Inl e | Inr w \<Rightarrow> Inr (HRef ?r))"
            unfolding run m by (cases u) simp_all
          from ml m have "take ?r h3 = h" by simp
          with run' have frame: "take (length h) (fst (configuredOutputs_store h parameters)) = h"
            by simp
          show ?thesis
          proof (cases "lane_cells h0 0 xs")
            case (Inl e)
            with ml lc m have "u = Inl e" by simp
            with run' have "snd (configuredOutputs_store h parameters) = Inl e"
              by simp
            with Inl ex frame show ?thesis by (simp add: lanes_of_def)
          next
            case (Inr cs)
            let ?refs = "map HRef [length ?h2..<length ?h2 + length cs]"
            let ?h3 = "(h @ [ArrayCell ?refs]) @ cs"
            from ml lc Inr have "map_lanes ?h2 ?r 0 xs = (?h3, Inr ())" by simp
            then have res: "configuredOutputs_store h parameters = (?h3, Inr (HRef ?r))"
              unfolding run by simp
            have "array_elems ?h3 (HRef ?r) = Some ?refs"
              by (simp add: array_elems_def nth_append)
            moreover have "map (cell_of ?h3) ?refs = map Some cs"
              using cells_of_fresh [of "h @ [ArrayCell ?refs]" cs] by simp
            ultimately have "lanes_of ?h3 (Inr (HRef ?r)) = Inr (Some cs)"
              by (simp add: lanes_of_def those_map_Some)
            with res Inr ex frame show ?thesis by simp
          qed
        qed
      qed
    qed
  qed
qed

section \<open>Dispatch to the matched lane\<close>

text \<open>
  Claim C1, as the code has it. Let the callback's \<^verbatim>\<open>action\<close> be truthy (for a string:
  not empty), let it be strictly equal to the name of the configured action at index
  \<open>k\<close>, and let no action at a smaller index have that name. Then \<^verbatim>\<open>webhook\<close> returns
  a result whose \<^verbatim>\<open>workflowData\<close> has one slot per configured action; slot \<open>k\<close> is the
  singleton holding the callback body with \<^verbatim>\<open>pairedItem = { item: 0 }\<close>, and every
  other slot is empty.
\<close>

theorem webhook_dispatch:
  assumes "truthy (get_prop body ''action'')"
    and "k < length allActions"
    and "strict_eq (get_prop (allActions ! k) ''name'') (get_prop body ''action'')"
    and "\<forall>j<k. \<not> strict_eq (get_prop (allActions ! j) ''name'') (get_prop body ''action'')"
  shows "\<exists>r. webhook allActions body = Inr r
           \<and> webhookResponse r = ''OK''
           \<and> length (workflowData r) = length allActions
           \<and> workflowData r ! k = [\<lparr> json = body, pairedItem = Some \<lparr> item = 0 \<rparr> \<rparr>]
           \<and> (\<forall>i<length allActions. i \<noteq> k \<longrightarrow> workflowData r ! i = [])"
proof -
  let ?p = "\<lambda>a. strict_eq (get_prop a ''name'') (get_prop body ''action'')"
  have "findIndex ?p allActions = int k"
    using assms(2-4) by (intro findIndex_first) simp_all
  with assms(1) have "webhook allActions body =
      Inr \<lparr> webhookResponse = ''OK'',
            workflowData = (replicate (length allActions) [])
               [k := [\<lparr> json = body, pairedItem = Some \<lparr> item = 0 \<rparr> \<rparr>]] \<rparr>"
    by (rule webhook_at_index)
  with assms(2) show ?thesis by (simp add: nth_list_update)
qed

text \<open>
  The scenario of the spec: with the actions Approve and Decline configured, the callback
  \<^verbatim>\<open>{action: "Decline", note: "too risky"}\<close> fills slot 1 and leaves slot 0 empty.
\<close>

theorem webhook_dispatch_witness:
  "truthy (get_prop decline_body ''action'')
   \<and> (1::nat) < length approve_decline
   \<and> strict_eq (get_prop (approve_decline ! 1) ''name'') (get_prop decline_body ''action'')
   \<and> \<not> strict_eq (get_prop (approve_decline ! 0) ''name'') (get_prop decline_body ''action'')
   \<and> webhook approve_decline decline_body =
       Inr \<lparr> webhookResponse = ''OK'', workflowData = [[], [decline_item]] \<rparr>"
proof -
  have h1: "truthy (get_prop decline_body ''action'')"
    by (simp add: get_prop_def)
  have h2: "(1::nat) < length approve_decline"
    by simp
  have h3: "strict_eq (get_prop (approve_decline ! 1) ''name'') (get_prop decline_body ''action'')"
    by (simp add: get_prop_def)
  have h0: "\<not> strict_eq (get_prop (approve_decline ! 0) ''name'') (get_prop decline_body ''action'')"
    by (simp add: get_prop_def)
  then have h4: "\<forall>j<1. \<not> strict_eq (get_prop (approve_decline ! j) ''name'')
      (get_prop decline_body ''action'')"
    by simp
  from webhook_dispatch [OF h1 h2 h3 h4]
  obtain r where r: "webhook approve_decline decline_body = Inr r"
    and ok: "webhookResponse r = ''OK''"
    and len: "length (workflowData r) = 2"
    and s1: "workflowData r ! 1 = [decline_item]"
    and others: "\<forall>i<2. i \<noteq> 1 \<longrightarrow> workflowData r ! i = []"
    by auto
  from others have s0: "workflowData r ! 0 = []" by simp
  from len obtain a b where ab: "workflowData r = [a, b]"
    by (auto simp: length_Suc_conv numeral_2_eq_2)
  with s0 s1 have "workflowData r = [[], [decline_item]]" by simp
  with ok have "r = \<lparr> webhookResponse = ''OK'', workflowData = [[], [decline_item]] \<rparr>"
    by (cases r) simp
  with r h1 h2 h3 h0 show ?thesis by simp
qed

text \<open>
  Claim C1 as it is written fails where the name is the empty string: the action at
  index 0 is named \<^verbatim>\<open>""\<close>, the callback's \<^verbatim>\<open>action\<close> is \<^verbatim>\<open>""\<close> too, and
  \<^verbatim>\<open>webhook\<close> throws at the falsiness check instead of filling slot 0.
\<close>

theorem webhook_dispatch_empty_name_counterexample:
  "get_prop [(''action'', JStr [])] ''action'' = get_prop ([[(''name'', JStr [])]] ! 0) ''name''
   \<and> webhook [[(''name'', JStr [])]] [(''action'', JStr [])] = Inl MissingActionError"
  by (simp add: get_prop_def webhook_def)

section \<open>The slot that is written\<close>

text \<open>
  Claim C2, as the code has it. Whenever \<^verbatim>\<open>webhook\<close> returns a result, the index
  that \<^verbatim>\<open>findIndex\<close> resolved is a valid lane index, \<^verbatim>\<open>workflowData\<close> is the
  sequence of empty slots with the slot at that index replaced by the singleton record
  (the assignment \<^verbatim>\<open>returnArray[index] = ...\<close>), and slot 0 is filled exactly when the
  resolved index is 0.
\<close>

theorem webhook_slot_is_resolved_index:
  assumes "webhook allActions body = Inr r"
  shows "let index = findIndex (\<lambda>a. strict_eq (get_prop a ''name'') (get_prop body ''action'')) allActions
         in 0 \<le> index \<and> nat index < length allActions
            \<and> workflowData r = (replicate (length allActions) [])
                 [nat index := [\<lparr> json = body, pairedItem = Some \<lparr> item = 0 \<rparr> \<rparr>]]
            \<and> (workflowData r ! 0 \<noteq> [] \<longleftrightarrow> index = 0)"
proof -
  let ?p = "\<lambda>a. strict_eq (get_prop a ''name'') (get_prop body ''action'')"
  from webhook_Inr_index [OF assms]
  have t: "truthy (get_prop body ''action'')" and nn: "0 \<le> findIndex ?p allActions"
    by simp_all
  from nn have "\<not> (\<forall>x\<in>set allActions. \<not> ?p x)"
    using findIndex_neg_iff [of ?p allActions] by simp
  then have "\<exists>x\<in>set allActions. ?p x" by simp
  from findIndex_some [OF this]
  obtain k where k: "k < length allActions" "findIndex ?p allActions = int k" by blast
  from webhook_at_index [OF t k(2)] assms
  have wd: "workflowData r = (replicate (length allActions) [])
      [k := [\<lparr> json = body, pairedItem = Some \<lparr> item = 0 \<rparr> \<rparr>]]"
    by simp
  have "workflowData r ! 0 \<noteq> [] \<longleftrightarrow> k = 0"
  proof (cases k)
    case 0
    with k(1) wd show ?thesis by simp
  next
    case (Suc m)
    with k(1) have "0 < length allActions" by (cases allActions) simp_all
    with Suc wd show ?thesis by simp
  qed
  with k wd show ?thesis by (simp add: Let_def)
qed

text \<open>With Approve and Decline configured, a Decline callback resolves to index 1.\<close>

theorem webhook_slot_is_resolved_index_witness:
  "webhook approve_decline decline_body =
     Inr \<lparr> webhookResponse = ''OK'', workflowData = [[], [decline_item]] \<rparr>
   \<and> findIndex (\<lambda>a. strict_eq (get_prop a ''name'') (get_prop decline_body ''action''))
        approve_decline = 1
   \<and> [[], [decline_item]] ! 0 = []
   \<and> [[], [decline_item]] ! 1 = [decline_item]"
proof -
  have w: "webhook approve_decline decline_body =
      Inr \<lparr> webhookResponse = ''OK'', workflowData = [[], [decline_item]] \<rparr>"
    by (simp add: webhook_def get_prop_def findIndex_def set_pairedItem0_def returnJsonArray_def)
  have f: "findIndex (\<lambda>a. strict_eq (get_prop a ''name'') (get_prop decline_body ''action''))
        approve_decline = 1"
    by (simp add: get_prop_def findIndex_def)
  from webhook_slot_is_resolved_index [OF w] w f show ?thesis
    by (simp add: Let_def numeral_2_eq_2)
qed

text \<open>
  Claim C2 as it is written says that the record always lands in slot 0. The Decline
  callback refutes it: slot 0 of the result is empty and the record is in slot 1.
\<close>

theorem webhook_slot0_counterexample:
  "webhook approve_decline decline_body =
     Inr \<lparr> webhookResponse = ''OK'', workflowData = [[], [decline_item]] \<rparr>
   \<and> [[], [decline_item]] ! 0 = []
   \<and> [[], [decline_item]] ! 1 \<noteq> []"
  by (simp add: webhook_def get_prop_def findIndex_def set_pairedItem0_def returnJsonArray_def)

section \<open>Errors of the resume entry point\<close>




text \<open>
  Claim C4. If the callback body has no \<^verbatim>\<open>action\<close> field, \<^verbatim>\<open>webhook\<close> throws the
  \<^verbatim>\<open>NodeOperationError\<close> with the message \<^verbatim>\<open>No "action" received.\<close> and returns no
  result, whatever the configuration.
\<close>

theorem webhook_missing_action:
  assumes "map_of body ''action'' = None"
  shows "webhook allActions body = Inl MissingActionError"
  using assms by (simp add: webhook_def get_prop_def)

text \<open>The spec's scenario: the callback \<^verbatim>\<open>{note: "oops"}\<close>.\<close>

theorem webhook_missing_action_witness:
  "map_of [(''note'', JStr ''oops'')] ''action'' = None
   \<and> webhook approve_decline [(''note'', JStr ''oops'')] = Inl MissingActionError"
proof -
  have h: "map_of [(''note'', JStr ''oops'')] ''action'' = None" by simp
  from webhook_missing_action [OF h] h show ?thesis by simp
qed

section \<open>Duplicate names: the first match wins\<close>

text \<open>
  Claim C5. If some configured action has a name strictly equal to the callback's
  \<^verbatim>\<open>action\<close>, the index that \<^verbatim>\<open>findIndex\<close> resolves is the smallest such index: it is
  at most any matching index, it matches, and no smaller index matches. When the action
  passes the falsiness check, that index is the slot \<^verbatim>\<open>webhook\<close> fills.
\<close>

theorem webhook_first_match:
  assumes "k < length allActions"
    and "strict_eq (get_prop (allActions ! k) ''name'') (get_prop body ''action'')"
  shows "let index = findIndex (\<lambda>a. strict_eq (get_prop a ''name'') (get_prop body ''action'')) allActions
         in 0 \<le> index \<and> nat index \<le> k
            \<and> strict_eq (get_prop (allActions ! nat index) ''name'') (get_prop body ''action'')
            \<and> (\<forall>i<nat index. \<not> strict_eq (get_prop (allActions ! i) ''name'') (get_prop body ''action''))
            \<and> (truthy (get_prop body ''action'') \<longrightarrow>
                 webhook allActions body =
                   Inr \<lparr> webhookResponse = ''OK'',
                         workflowData = (replicate (length allActions) [])
                           [nat index := [\<lparr> json = body, pairedItem = Some \<lparr> item = 0 \<rparr> \<rparr>]] \<rparr>)"
proof -
  let ?p = "\<lambda>a. strict_eq (get_prop a ''name'') (get_prop body ''action'')"
  from assms have "\<exists>x\<in>set allActions. ?p x"
    using nth_mem by blast
  from findIndex_some [OF this]
  obtain j where j: "j < length allActions" "findIndex ?p allActions = int j"
    "?p (allActions ! j)" "\<forall>i<j. \<not> ?p (allActions ! i)"
    by blast
  have "j \<le> k"
  proof (rule ccontr)
    assume "\<not> j \<le> k"
    then have "k < j" by simp
    with j(4) assms(2) show False by blast
  qed
  moreover have "truthy (get_prop body ''action'') \<longrightarrow>
      webhook allActions body =
        Inr \<lparr> webhookResponse = ''OK'',
              workflowData = (replicate (length allActions) [])
                [j := [\<lparr> json = body, pairedItem = Some \<lparr> item = 0 \<rparr> \<rparr>]] \<rparr>"
    using webhook_at_index [OF _ j(2)] by blast
  ultimately show ?thesis using j by (simp add: Let_def)
qed

text \<open>
  The configuration \<^verbatim>\<open>[{name: "A"}, {name: "A"}]\<close> with the callback
  \<^verbatim>\<open>{action: "A"}\<close>: index 1 matches, and the match resolves to index 0.
\<close>

theorem webhook_first_match_witness:
  "(1::nat) < length a_a
   \<and> strict_eq (get_prop (a_a ! 1) ''name'') (get_prop a_body ''action'')
   \<and> truthy (get_prop a_body ''action'')
   \<and> findIndex (\<lambda>a. strict_eq (get_prop a ''name'') (get_prop a_body ''action'')) a_a = 0
   \<and> webhook a_a a_body =
        Inr \<lparr> webhookResponse = ''OK'',
              workflowData = [[\<lparr> json = a_body, pairedItem = Some \<lparr> item = 0 \<rparr> \<rparr>], []] \<rparr>"
proof -
  let ?index = "findIndex (\<lambda>a. strict_eq (get_prop a ''name'') (get_prop a_body ''action'')) a_a"
  have h1: "(1::nat) < length a_a" by simp
  have h2: "strict_eq (get_prop (a_a ! 1) ''name'') (get_prop a_body ''action'')"
    by (simp add: get_prop_def)
  have t: "truthy (get_prop a_body ''action'')" by (simp add: get_prop_def)
  note first = webhook_first_match [OF h1 h2, unfolded Let_def]
  from first have nn: "0 \<le> ?index" and le: "nat ?index \<le> 1"
    and earlier: "\<forall>i<nat ?index. \<not> strict_eq (get_prop (a_a ! i) ''name'') (get_prop a_body ''action'')"
    by simp_all
  have "nat ?index = 0"
  proof (rule ccontr)
    assume "nat ?index \<noteq> 0"
    with le have "nat ?index = 1" by simp
    with earlier have "\<not> strict_eq (get_prop (a_a ! 0) ''name'') (get_prop a_body ''action'')"
      by simp
    then show False by (simp add: get_prop_def)
  qed
  with nn have i0: "?index = 0" by simp
  from first t have "webhook a_a a_body =
      Inr \<lparr> webhookResponse = ''OK'',
            workflowData = (replicate (length a_a) [])
              [nat ?index := [\<lparr> json = a_body, pairedItem = Some \<lparr> item = 0 \<rparr> \<rparr>]] \<rparr>"
    by blast
  with i0 have "webhook a_a a_body =
      Inr \<lparr> webhookResponse = ''OK'',
            workflowData = [[\<lparr> json = a_body, pairedItem = Some \<lparr> item = 0 \<rparr> \<rparr>], []] \<rparr>"
    by (simp add: numeral_2_eq_2)
  with h1 h2 t i0 show ?thesis by simp
qed

section \<open>The resolver\<close>

text \<open>
  Claim C6. \<^verbatim>\<open>configuredOutputs\<close> returns one lane per configured action, in the same
  order (no lane when \<^verbatim>\<open>parameters.actions\<close> is absent or the list is empty). The lane
  at index \<open>i\<close> has the type \<^verbatim>\<open>Main\<close>; when the name of action \<open>i\<close> is a string, the
  lane's \<^verbatim>\<open>displayName\<close> is that name if it is not empty and \<^verbatim>\<open>Action i\<close> if it is.
\<close>

theorem configuredOutputs_lanes:
  "length (configuredOutputs p) = length (actionList p)
   \<and> (actions p = None \<longrightarrow> configuredOutputs p = [])
   \<and> (\<forall>i<length (actionList p).
         type (configuredOutputs p ! i) = Main
         \<and> (\<forall>s. get_prop (actionList p ! i) ''name'' = JStr s \<longrightarrow>
               displayName (configuredOutputs p ! i) =
                 JStr (if s = [] then ''Action '' @ decimal i else s)))"
proof (intro conjI allI impI)
  show "length (configuredOutputs p) = length (actionList p)"
    by (rule length_configuredOutputs)
next
  assume "actions p = None"
  then have "actionList p = []" by (simp add: actionList_def)
  with length_configuredOutputs [of p] show "configuredOutputs p = []" by simp
next
  fix i assume "i < length (actionList p)"
  then show "type (configuredOutputs p ! i) = Main"
    by (simp add: nth_configuredOutputs lane_of_def)
next
  fix i s
  assume "i < length (actionList p)" and "get_prop (actionList p ! i) ''name'' = JStr s"
  then show "displayName (configuredOutputs p ! i) =
      JStr (if s = [] then ''Action '' @ decimal i else s)"
    by (simp add: nth_configuredOutputs lane_of_def)
qed

text \<open>Two actions, the second one unnamed; and the same parameters without actions.\<close>

theorem configuredOutputs_lanes_witness:
  "actionList example_parameters = [[(''name'', JStr ''Approve'')], [(''name'', JStr [])]]
   \<and> length (configuredOutputs example_parameters) = 2
   \<and> displayName (configuredOutputs example_parameters ! 0) = JStr ''Approve''
   \<and> displayName (configuredOutputs example_parameters ! 1) = JStr ''Action 1''
   \<and> configuredOutputs (example_parameters \<lparr> actions := None \<rparr>) = []"
proof -
  have al: "actionList example_parameters = [[(''name'', JStr ''Approve'')], [(''name'', JStr [])]]"
    by (simp add: actionList_def)
  have d1: "decimal 1 = ''1''" by (simp add: decimal_digit digit_def)
  note lanes = configuredOutputs_lanes [of example_parameters]
  from lanes al have len: "length (configuredOutputs example_parameters) = 2"
    by simp
  from lanes have each: "\<And>i s. i < length (actionList example_parameters) \<Longrightarrow>
      get_prop (actionList example_parameters ! i) ''name'' = JStr s \<Longrightarrow>
      displayName (configuredOutputs example_parameters ! i) =
        JStr (if s = [] then ''Action '' @ decimal i else s)"
    by blast
  from each [of 0 "''Approve''"] al
  have l0: "displayName (configuredOutputs example_parameters ! 0) = JStr ''Approve''"
    by (simp add: get_prop_def)
  from each [of 1 "[]"] al d1
  have l1: "displayName (configuredOutputs example_parameters ! 1) = JStr ''Action 1''"
    by (simp add: get_prop_def)
  from configuredOutputs_lanes [of "example_parameters \<lparr> actions := None \<rparr>"]
  have e: "configuredOutputs (example_parameters \<lparr> actions := None \<rparr>) = []"
    by simp
  from al len l0 l1 e show ?thesis by simp
qed

text \<open>
  Claim C7. Let \<^verbatim>\<open>configuredOutputs\<close> be invoked on a configuration held in a closed
  store, and then once more on the same configuration in the store the first invocation
  left. Both invocations return identical lane sequences, the same lanes in the same
  order with the same display names, or throw the same error; what is returned is an
  array of lane objects. Neither invocation has a side effect: every cell that existed
  before it is unchanged after it, so all either does to the store is to allocate the
  lanes, and the array holding them, that it returns.
\<close>

theorem configuredOutputs_store_repeatable:
  assumes "closed_store h" and "below (length h) parameters"
    and "configuredOutputs_store h parameters = (h1, r1)"
    and "configuredOutputs_store h1 parameters = (h2, r2)"
  shows "lanes_of h2 r2 = lanes_of h1 r1
         \<and> lanes_of h1 r1 \<noteq> Inr None
         \<and> take (length h) h1 = h
         \<and> take (length h1) h2 = h1"
proof -
  have "take (length h) h = h" by simp
  from configuredOutputs_store_spec [OF assms(1,2) this] assms(3)
  have first: "lanes_of h1 r1 = map_sum id Some (expected_lanes h parameters)"
    and frame1: "take (length h) h1 = h"
    by simp_all
  from configuredOutputs_store_spec [OF assms(1,2) frame1] assms(4)
  have second: "lanes_of h2 r2 = map_sum id Some (expected_lanes h parameters)"
    and frame2: "take (length h1) h2 = h1"
    by simp_all
  from first have "lanes_of h1 r1 \<noteq> Inr None"
    by (cases "expected_lanes h parameters") simp_all
  with first second frame1 frame2 show ?thesis by simp
qed

text \<open>
  The example store: both invocations return the lanes Approve and Action 1, in newly
  allocated cells, and leave the cells before them as they were.
\<close>

theorem configuredOutputs_store_repeatable_witness:
  "closed_store example_store
   \<and> below (length example_store) (HRef 0)
   \<and> configuredOutputs_store example_store (HRef 0)
        = (example_store @ [ArrayCell [HRef 6, HRef 7], approve_lane, action1_lane], Inr (HRef 5))
   \<and> configuredOutputs_store
          (example_store @ [ArrayCell [HRef 6, HRef 7], approve_lane, action1_lane]) (HRef 0)
        = (example_store @ [ArrayCell [HRef 6, HRef 7], approve_lane, action1_lane,
                            ArrayCell [HRef 9, HRef 10], approve_lane, action1_lane],
           Inr (HRef 8))
   \<and> lanes_of (example_store @ [ArrayCell [HRef 6, HRef 7], approve_lane, action1_lane])
        (Inr (HRef 5)) = Inr (Some [approve_lane, action1_lane])
   \<and> lanes_of (example_store @ [ArrayCell [HRef 6, HRef 7], approve_lane, action1_lane,
                            ArrayCell [HRef 9, HRef 10], approve_lane, action1_lane])
        (Inr (HRef 8)) = Inr (Some [approve_lane, action1_lane])"
proof -
  let ?h1 = "example_store @ [ArrayCell [HRef 6, HRef 7], approve_lane, action1_lane]"
  let ?h2 = "example_store @ [ArrayCell [HRef 6, HRef 7], approve_lane, action1_lane,
                            ArrayCell [HRef 9, HRef 10], approve_lane, action1_lane]"
  have c: "closed_store example_store" by code_simp
  have b: "below (length example_store) (HRef 0)" by code_simp
  have run1: "configuredOutputs_store example_store (HRef 0) = (?h1, Inr (HRef 5))"
    by code_simp
  have run2: "configuredOutputs_store ?h1 (HRef 0) = (?h2, Inr (HRef 8))"
    by code_simp
  have l1: "lanes_of ?h1 (Inr (HRef 5)) = Inr (Some [approve_lane, action1_lane])"
    by code_simp
  from configuredOutputs_store_repeatable [OF c b run1 run2] l1
  have l2: "lanes_of ?h2 (Inr (HRef 8)) = Inr (Some [approve_lane, action1_lane])"
    by simp
  from c b run1 run2 l1 l2 show ?thesis by blast
qed

section \<open>The approval request\<close>

text \<open>
  Claim C8. The request body that \<^verbatim>\<open>execute\<close> builds has as \<^verbatim>\<open>webhook_url\<close> the
  resume address, then \<^verbatim>\<open>/\<close>, then the node's identifier; its \<^verbatim>\<open>actions\<close> has one
  record per configured action, in the same order, and the record at index \<open>i\<close> has the
  single field \<^verbatim>\<open>name\<close>, holding the name of the configured action \<open>i\<close>.
\<close>

theorem execute_request:
  "webhook_url (request (execute this)) = resumeUrl this @ ''/'' @ node_id this
   \<and> length (rb_actions (request (execute this))) = length (param_actions_action this)
   \<and> (\<forall>i<length (param_actions_action this).
         rb_actions (request (execute this)) ! i
           = [(''name'', get_prop (param_actions_action this ! i) ''name'')])"
  by (simp add: execute_def requestBody_def)

text \<open>The spec's scenario: subject "Deploy v2", actions Approve and Decline.\<close>

theorem execute_request_witness:
  "webhook_url (request (execute example_run)) = ''http://localhost:5678/webhook-waiting/42/7f3c''
   \<and> rb_actions (request (execute example_run))
        = [[(''name'', JStr ''Approve'')], [(''name'', JStr ''Decline'')]]"
proof -
  note req = execute_request [of example_run]
  from req have url: "webhook_url (request (execute example_run))
      = ''http://localhost:5678/webhook-waiting/42/7f3c''"
    by simp
  from req have len: "length (rb_actions (request (execute example_run))) = 2"
    by simp
  from req have each: "\<And>i. i < 2 \<Longrightarrow> rb_actions (request (execute example_run)) ! i
      = [(''name'', get_prop (approve_decline ! i) ''name'')]"
    by simp
  from each [of 0] have a0: "rb_actions (request (execute example_run)) ! 0
      = [(''name'', JStr ''Approve'')]"
    by (simp add: get_prop_def)
  from each [of 1] have a1: "rb_actions (request (execute example_run)) ! 1
      = [(''name'', JStr ''Decline'')]"
    by (simp add: get_prop_def)
  from len obtain x y where xy: "rb_actions (request (execute example_run)) = [x, y]"
    by (auto simp: length_Suc_conv numeral_2_eq_2)
  with a0 a1 have "rb_actions (request (execute example_run))
      = [[(''name'', JStr ''Approve'')], [(''name'', JStr ''Decline'')]]"
    by simp
  with url show ?thesis by simp
qed

text \<open>
  Claim C10. Whatever the configuration and the input, the \<^verbatim>\<open>account_uuid\<close> of the
  request body is the constant \<^verbatim>\<open>00000000-0000-4000-c025-000000000000\<close>.
\<close>

theorem execute_account_uuid:
  "account_uuid (request (execute this)) = ''00000000-0000-4000-c025-000000000000''"
  by (simp add: execute_def requestBody_def)

section \<open>The empty action\<close>

text \<open>
  Claim C9. A callback whose \<^verbatim>\<open>action\<close> is the empty string fails with the error of
  the missing action, which is not the error of an unknown action, whatever the value
  named in its message. And a configured
  action whose name is the empty string is never matched: whenever \<^verbatim>\<open>webhook\<close>
  returns a result for any callback, the resolved index is not that action's index and
  that action's slot is empty.
\<close>

theorem webhook_empty_action:
  "(get_prop body ''action'' = JStr [] \<longrightarrow>
      webhook allActions body = Inl MissingActionError
      \<and> MissingActionError \<noteq> UnknownActionError s)
   \<and> (k < length allActions \<and> get_prop (allActions ! k) ''name'' = JStr []
        \<and> webhook allActions body' = Inr r \<longrightarrow>
      findIndex (\<lambda>a. strict_eq (get_prop a ''name'') (get_prop body' ''action'')) allActions \<noteq> int k
      \<and> workflowData r ! k = [])"
proof (intro conjI impI)
  assume "get_prop body ''action'' = JStr []"
  then show "webhook allActions body = Inl MissingActionError"
    by (simp add: webhook_falsy)
next
  show "MissingActionError \<noteq> UnknownActionError s"
    by (rule missing_neq_unknown)
next
  let ?p = "\<lambda>a. strict_eq (get_prop a ''name'') (get_prop body' ''action'')"
  assume a: "k < length allActions \<and> get_prop (allActions ! k) ''name'' = JStr []
      \<and> webhook allActions body' = Inr r"
  then have k: "k < length allActions" and nm: "get_prop (allActions ! k) ''name'' = JStr []"
    and w: "webhook allActions body' = Inr r" by simp_all
  from webhook_Inr_index [OF w]
  have t: "truthy (get_prop body' ''action'')" and nn: "0 \<le> findIndex ?p allActions"
    by simp_all
  have nk: "\<not> ?p (allActions ! k)"
  proof
    assume "?p (allActions ! k)"
    with nm have "get_prop body' ''action'' = JStr []" by simp
    with t show False by simp
  qed
  from nn have "\<not> (\<forall>x\<in>set allActions. \<not> ?p x)"
    using findIndex_neg_iff [of ?p allActions] by simp
  then have "\<exists>x\<in>set allActions. ?p x" by simp
  from findIndex_some [OF this]
  obtain j where j: "j < length allActions" "findIndex ?p allActions = int j" "?p (allActions ! j)"
    by blast
  from j(3) nk have jk: "j \<noteq> k" by auto
  with j(2) show "findIndex ?p allActions \<noteq> int k" by simp
  from webhook_at_index [OF t j(2)] w
  have "workflowData r = (replicate (length allActions) [])
      [j := [\<lparr> json = body', pairedItem = Some \<lparr> item = 0 \<rparr> \<rparr>]]"
    by simp
  with jk k show "workflowData r ! k = []" by simp
qed

text \<open>
  An unnamed action at index 0 and an action B at index 1: the callback
  \<^verbatim>\<open>{action: ""}\<close> fails, and the callback \<^verbatim>\<open>{action: "B"}\<close> leaves slot 0 empty.
\<close>

theorem webhook_empty_action_witness:
  "get_prop [(''action'', JStr [])] ''action'' = JStr []
   \<and> webhook unnamed_b [(''action'', JStr [])] = Inl MissingActionError
   \<and> (0::nat) < length unnamed_b
   \<and> get_prop (unnamed_b ! 0) ''name'' = JStr []
   \<and> webhook unnamed_b b_body =
        Inr \<lparr> webhookResponse = ''OK'',
              workflowData = [[], [\<lparr> json = b_body, pairedItem = Some \<lparr> item = 0 \<rparr> \<rparr>]] \<rparr>
   \<and> [[], [\<lparr> json = b_body, pairedItem = Some \<lparr> item = 0 \<rparr> \<rparr>]] ! 0 = []"
proof -
  let ?r = "\<lparr> webhookResponse = ''OK'',
              workflowData = [[], [\<lparr> json = b_body, pairedItem = Some \<lparr> item = 0 \<rparr> \<rparr>]] \<rparr>"
  have h1: "get_prop [(''action'', JStr [])] ''action'' = JStr []"
    by (simp add: get_prop_def)
  have h2: "(0::nat) < length unnamed_b" by simp
  have h3: "get_prop (unnamed_b ! 0) ''name'' = JStr []" by (simp add: get_prop_def)
  have h4: "webhook unnamed_b b_body = Inr ?r"
    by (simp add: webhook_def get_prop_def findIndex_def set_pairedItem0_def returnJsonArray_def)
  from webhook_empty_action [of "[(''action'', JStr [])]" unnamed_b "[]" 0 b_body ?r] h1 h2 h3 h4
  show ?thesis by simp
qed

end
